theory Spec2Isabelle
  imports Complex_Main "HOL-Library.AList" "HOL-Library.Sublist"
begin

section \<open>Configuration and the style registry\<close>

text \<open>
  The generator is one Python script, \<^verbatim>\<open>generate-location-icons.py\<close>.  Its module
  constants are the canvas size, the root directory and the style table, a dictionary
  from category id to (hex colour, shape kind, label).
\<close>

definition ICON_SIZE :: "nat \<times> nat" where
  "ICON_SIZE = (64, 64)"

definition ICONS_DIR :: string where
  "ICONS_DIR = ''icons-pathfinding''"

definition CATEGORY_STYLES :: "(string \<times> (string \<times> string \<times> string)) list" where
  "CATEGORY_STYLES =
    [(''enemies-arcs'', (''#ef5350'', ''diamond'', ''ARC'')),
     (''extraction'', (''#26c6da'', ''arrow_up'', ''EXIT'')),
     (''spawn'', (''#ffffff'', ''arrow_down'', ''DROP'')),
     (''locked-rooms'', (''#fbc02d'', ''padlock'', ''LOCK'')),
     (''objectives'', (''#ffeb3b'', ''star'', ''OBJ'')),
     (''loot-containers'', (''#e0e0e0'', ''box'', ''LOOT'')),
     (''supply-stations'', (''#bdbdbd'', ''radio'', ''SUP'')),
     (''resources-plants'', (''#66bb6a'', ''leaf'', ''BIO'')),
     (''other'', (''#9e9e9e'', ''circle'', ''???''))]"

section \<open>Exceptions, colours and the drawing surface\<close>

text \<open>
  Every exception the script can meet is a value; the string is the path or text it
  was raised for.
\<close>

datatype error =
    FileNotFoundError string
  | IsADirectoryError string
  | NotADirectoryError string
  | UnicodeDecodeError string
  | OSError string
  | ValueError string

text \<open>
  A colour reaches the drawing library either as the RGB triple \<open>hex_to_rgb\<close> computed
  or, on the fallback path, as the hex string itself; the background fill is an RGBA
  quadruple.
\<close>

datatype color =
    ColorRGB "int \<times> int \<times> int"
  | ColorRGBA "int \<times> int \<times> int \<times> int"
  | ColorName string

datatype font = TrueTypeFont string nat | DefaultFont

text \<open>
  The image is kept as the sequence of drawing calls made on the transparent canvas,
  each with the arguments the script passes.  Coordinates are Python floats in the
  source and exact rationals here.
\<close>

datatype draw_op =
    Polygon "(rat \<times> rat) list" color color nat
  | Ellipse "rat list" color color nat
  | Rectangle "rat list" color color nat
  | Arc "rat list" int int color nat
  | Line "rat list" color nat
  | DrawText "rat \<times> rat" string color "font option"

record image =
  img_mode :: string
  img_size :: "nat \<times> nat"
  img_background :: color
  img_ops :: "draw_op list"

section \<open>The environment and the file system\<close>

text \<open>
  What the script asks of its surroundings and cannot decide itself: which fonts load,
  what bounding box a text has (the call may raise), whether saving to a path
  succeeds (its directory is there, the user may write), and the working directory.
  The tool creates no directory and changes no permission, so these answers are the
  same throughout a run and from one run to the next.
\<close>

record env =
  truetype :: "string \<Rightarrow> nat \<Rightarrow> font option"
  load_default :: "font option"
  textbbox :: "font \<Rightarrow> string \<Rightarrow> error + (rat \<times> rat \<times> rat \<times> rat)"
  writable :: "string \<Rightarrow> bool"
  getcwd :: string

datatype content = Text string | Png image

datatype node = Dir | File content

text \<open>
  The file system is an association list from path to node, in directory order; the
  first entry of a path is the one that counts.  A path is looked up by its text, and
  there are no links.  On a real file system different texts can denote one file
  (\<open>.\<close> and \<open>..\<close> components, the working directory, the case of letters); a
  statement that depends on which file a text denotes compares paths by \<open>file_key\<close>,
  defined further down.  The console is the list of lines printed so far.
\<close>

datatype msg =
    UnknownCategory string
  | NoManifest string
  | GenError string error
  | IconsDirNotFound string
  | RunReorganizeFirst
  | Banner
  | Rule
  | Processing string
  | GeneratedNew nat
  | NothingNew
  | Complete nat nat
  | IconsDirectory string

record world =
  fs :: "(string \<times> node) list"
  out :: "msg list"

definition print :: "msg \<Rightarrow> world \<Rightarrow> world" where
  "print m w = w\<lparr>out := out w @ [m]\<rparr>"

subsection \<open>Path and string functions of the Python library\<close>

definition join :: "string \<Rightarrow> string \<Rightarrow> string" where
  "join a b =
     (if b \<noteq> [] \<and> hd b = CHR ''/'' then b
      else if a = [] \<or> last a = CHR ''/'' then a @ b
      else a @ ''/'' @ b)"

definition basename :: "string \<Rightarrow> string" where
  "basename p = rev (takeWhile (\<lambda>c. c \<noteq> CHR ''/'') (rev p))"

definition path_exists :: "(string \<times> node) list \<Rightarrow> string \<Rightarrow> bool" where
  "path_exists f p = (map_of f p \<noteq> None)"

definition isdir :: "(string \<times> node) list \<Rightarrow> string \<Rightarrow> bool" where
  "isdir f p = (map_of f p = Some Dir)"

definition child_name :: "string \<Rightarrow> string \<Rightarrow> string option" where
  "child_name d p =
     (let rest = drop (length d + 1) p
      in if take (length d + 1) p = d @ ''/'' \<and> rest \<noteq> [] \<and> CHR ''/'' \<notin> set rest
         then Some rest else None)"

definition listdir :: "(string \<times> node) list \<Rightarrow> string \<Rightarrow> error + string list" where
  "listdir f d =
     (case map_of f d of
        None \<Rightarrow> Inl (FileNotFoundError d)
      | Some (File c) \<Rightarrow> Inl (NotADirectoryError d)
      | Some Dir \<Rightarrow> Inr (List.map_filter (\<lambda>e. child_name d (fst e)) f))"

definition abspath :: "env \<Rightarrow> string \<Rightarrow> string" where
  "abspath e p = join (getcwd e) p"

text \<open>
  A string is the list of its code points, taken below 256.
  \<open>str.replace(old, new)\<close>: every occurrence, left to right, without overlap.
\<close>

function replace :: "string \<Rightarrow> string \<Rightarrow> string \<Rightarrow> string" where
  "replace old new [] = (if old = [] then new else [])"
| "replace old new (c # cs) =
     (if old = [] then new @ c # replace old new cs
      else if prefix old (c # cs) then new @ replace old new (drop (length old) (c # cs))
      else c # replace old new cs)"
  by pat_completeness auto
termination
  by (relation "measure (\<lambda>(old, new, s). length s)") (auto simp: neq_Nil_conv)

text \<open>\<open>str.strip()\<close> removes the white space of Python at both ends.\<close>

definition is_space :: "char \<Rightarrow> bool" where
  "is_space c = (c \<in> set [CHR '' '', CHR 0x09, CHR 0x0A, CHR 0x0B, CHR 0x0C, CHR 0x0D,
                           CHR 0x1C, CHR 0x1D, CHR 0x1E, CHR 0x1F, CHR 0x85, CHR 0xA0])"

definition strip :: "string \<Rightarrow> string" where
  "strip s = rev (dropWhile is_space (rev (dropWhile is_space s)))"

text \<open>
  Iterating a text file opened with universal newlines: the lines, cut at every line
  feed and carriage return.  (A \<open>CR LF\<close> pair gives an empty line more, which the
  caller drops with the other blank lines.)
\<close>

fun file_lines :: "string \<Rightarrow> string list" where
  "file_lines [] = [[]]"
| "file_lines (c # cs) =
     (if c = CHR 0x0A \<or> c = CHR 0x0D then [] # file_lines cs
      else (case file_lines cs of [] \<Rightarrow> [[c]] | l # ls \<Rightarrow> (c # l) # ls))"

subsection \<open>Hexadecimal colours\<close>

definition hex_digit :: "char \<Rightarrow> int option" where
  "hex_digit c =
     (let n = (of_char c :: nat)
      in if 48 \<le> n \<and> n \<le> 57 then Some (int n - 48)
         else if 97 \<le> n \<and> n \<le> 102 then Some (int n - 87)
         else if 65 \<le> n \<and> n \<le> 70 then Some (int n - 55)
         else None)"

fun int16_from :: "int \<Rightarrow> string \<Rightarrow> int option" where
  "int16_from acc [] = Some acc"
| "int16_from acc (c # cs) =
     (case hex_digit c of None \<Rightarrow> None | Some d \<Rightarrow> int16_from (16 * acc + d) cs)"

definition int16 :: "string \<Rightarrow> int option" where
  "int16 s = (if s = [] then None else int16_from 0 s)"

definition hex_to_rgb :: "string \<Rightarrow> error + (int \<times> int \<times> int)" where
  "hex_to_rgb hex_color =
     (let h = dropWhile (\<lambda>c. c = CHR ''#'') hex_color
      in case (int16 (take 2 h), int16 (take 2 (drop 2 h)), int16 (take 2 (drop 4 h))) of
           (Some r, Some g, Some b) \<Rightarrow> Inr (r, g, b)
         | _ \<Rightarrow> Inl (ValueError h))"

section \<open>The shape renderer\<close>

text \<open>
  \<open>draw_icon\<close>, lines 22 to 107.  The shape is chosen by an \<open>if\<close>/\<open>elif\<close> chain on
  the shape string; an unknown shape gets the square of the last branch.
\<close>

definition bg_color :: color where
  "bg_color = ColorRGBA (20, 20, 20, 230)"

text \<open>
  One vertex of the star loop (lines 64 to 68) for index \<open>i\<close>.  The source binds
  \<open>angle\<close> and never reads it; both coordinates add the same offset to the centre.
\<close>

definition star_point :: "nat \<Rightarrow> rat \<times> rat" where
  "star_point i =
     (let w = of_nat (fst ICON_SIZE); h = of_nat (snd ICON_SIZE); p = 4;
          cx = w / 2; cy = h / 2;
          angle = of_nat i * 3.14159 / (5::rat);
          r = (if i mod 2 = 0 then w / 2 - p else w / 2 - p - 8)
      in (cx + r * 0.8 * (if i mod 2 = 0 then 1 else 0.5) * (if i < 5 then 1 else - 1),
          cy + r * 0.8 * (if i mod 2 = 0 then 1 else 0.5) * (if i < 5 then 1 else - 1)))"

definition star_points :: "(rat \<times> rat) list" where
  "star_points = map star_point [0..<10]"

definition shape_ops :: "color \<Rightarrow> string \<Rightarrow> draw_op list" where
  "shape_ops color shape =
     (let w = of_nat (fst ICON_SIZE); h = of_nat (snd ICON_SIZE); p = 4;
          cx = w / 2; cy = h / 2
      in if shape = ''diamond'' then
           [Polygon [(cx, p), (w - p, cy), (cx, h - p), (p, cy)] bg_color color 3]
         else if shape = ''circle'' then
           [Ellipse [p, p, w - p, h - p] bg_color color 3]
         else if shape = ''box'' then
           [Rectangle [p + 4, p + 4, w - p - 4, h - p - 4] bg_color color 3]
         else if shape = ''arrow_up'' then
           [Polygon [(cx, p), (w - p, cy), (cx + 10, cy), (cx + 10, h - p),
                     (cx - 10, h - p), (cx - 10, cy), (p, cy)] bg_color color 3]
         else if shape = ''arrow_down'' then
           [Polygon [(cx, h - p), (w - p, cy), (cx + 10, cy), (cx + 10, p),
                     (cx - 10, p), (cx - 10, cy), (p, cy)] bg_color color 3]
         else if shape = ''padlock'' then
           [Rectangle [cx - 12, cy - 8, cx + 12, cy + 8] bg_color color 3,
            Arc [cx - 12, cy - 16, cx + 12, cy] 0 180 color 3]
         else if shape = ''star'' then
           (if length star_points \<ge> 3 then [Polygon star_points bg_color color 2] else [])
         else if shape = ''radio'' then
           [Rectangle [cx - 10, cy - 6, cx + 10, cy + 6] bg_color color 3,
            Line [cx, cy - 6, cx, cy - 12] color 2,
            Line [cx - 4, cy - 12, cx + 4, cy - 12] color 2]
         else if shape = ''leaf'' then
           [Ellipse [cx - 10, cy - 8, cx + 10, cy + 8] bg_color color 3,
            Line [cx, cy - 8, cx, cy + 8] color 2]
         else
           [Rectangle [p, p, w - p, h - p] bg_color color 3])"

text \<open>Lines 87 to 94: the scalable font, else the built-in one, else none.\<close>

definition load_font :: "env \<Rightarrow> font option" where
  "load_font e =
     (case truetype e ''arial.ttf'' 10 of
        Some f \<Rightarrow> Some f
      | None \<Rightarrow> (case load_default e of Some f \<Rightarrow> Some f | None \<Rightarrow> None))"

text \<open>Lines 97 to 103: the first three characters of the label, centred by its box.\<close>

definition label_ops :: "env \<Rightarrow> color \<Rightarrow> string \<Rightarrow> error + draw_op list" where
  "label_ops e color text =
     (let cx = of_nat (fst ICON_SIZE) / 2; cy = of_nat (snd ICON_SIZE) / 2
      in case load_font e of
           Some f \<Rightarrow>
             (case textbbox e f (take 3 text) of
                Inl err \<Rightarrow> Inl err
              | Inr (x0, y0, x1, y1) \<Rightarrow>
                  (let text_width = x1 - x0; text_height = y1 - y0
                   in Inr [DrawText (cx - text_width / 2, cy - text_height / 2)
                                    (take 3 text) color (Some f)]))
         | None \<Rightarrow> Inr [DrawText (cx - 12, cy - 6) (take 3 text) color None])"

text \<open>
  \<open>img.save\<close>: it raises on a directory and where the environment refuses the write,
  and then leaves the file system as it was; otherwise the path holds the image
  afterwards, whatever it held before.
\<close>

definition save :: "env \<Rightarrow> world \<Rightarrow> image \<Rightarrow> string \<Rightarrow> (error + unit) \<times> world" where
  "save e w img output_path =
     (if map_of (fs w) output_path = Some Dir then (Inl (IsADirectoryError output_path), w)
      else if \<not> writable e output_path then (Inl (OSError output_path), w)
      else (Inr (), w\<lparr>fs := AList.update output_path (File (Png img)) (fs w)\<rparr>))"

text \<open>
  \<open>draw_icon\<close> in two steps: lines 25 to 103 build the image, line 106 saves it.
  The category is a parameter of the source function and is kept as one.
\<close>

definition render_icon ::
  "env \<Rightarrow> string \<Rightarrow> color \<Rightarrow> string \<Rightarrow> string \<Rightarrow> error + image" where
  "render_icon e category color shape text =
     (let img = \<lparr>img_mode = ''RGBA'', img_size = ICON_SIZE,
                 img_background = ColorRGBA (0, 0, 0, 0), img_ops = shape_ops color shape\<rparr>
      in case label_ops e color text of
           Inl err \<Rightarrow> Inl err
         | Inr l \<Rightarrow> Inr (img\<lparr>img_ops := img_ops img @ l\<rparr>))"

definition draw_icon ::
  "env \<Rightarrow> world \<Rightarrow> string \<Rightarrow> color \<Rightarrow> string \<Rightarrow> string \<Rightarrow> string \<Rightarrow> (error + string) \<times> world" where
  "draw_icon e w category color shape text output_path =
     (case render_icon e category color shape text of
        Inl err \<Rightarrow> (Inl err, w)
      | Inr img \<Rightarrow>
          (case save e w img output_path of
             (Inl err, w') \<Rightarrow> (Inl err, w')
           | (Inr u, w') \<Rightarrow> (Inr output_path, w')))"

section \<open>The category processor\<close>

text \<open>
  Lines 116 to 123: the style of a folder name.  \<open>lookup_style\<close> is the value the
  \<open>if\<close> statement assigns, \<open>resolve_style\<close> adds the warning its first branch
  prints.
\<close>

definition lookup_style :: "string \<Rightarrow> error + (color \<times> string \<times> string)" where
  "lookup_style category_name =
     (case map_of CATEGORY_STYLES category_name of
        None \<Rightarrow> Inr (ColorName ''#9e9e9e'', ''circle'', ''???'')
      | Some (color_hex, shape, text) \<Rightarrow>
          (case hex_to_rgb color_hex of
             Inl err \<Rightarrow> Inl err
           | Inr rgb \<Rightarrow> Inr (ColorRGB rgb, shape, text)))"

definition resolve_style ::
  "world \<Rightarrow> string \<Rightarrow> (error + (color \<times> string \<times> string)) \<times> world" where
  "resolve_style w category_name =
     (lookup_style category_name,
      if map_of CATEGORY_STYLES category_name = None
      then print (UnknownCategory category_name) w else w)"

text \<open>Lines 132 and 133: the stripped, non-blank lines of the manifest.\<close>

definition icon_names_of :: "string \<Rightarrow> string list" where
  "icon_names_of s = filter (\<lambda>l. l \<noteq> []) (map strip (file_lines s))"

definition read_icon_names :: "(string \<times> node) list \<Rightarrow> string \<Rightarrow> error + string list" where
  "read_icon_names f p =
     (case map_of f p of
        None \<Rightarrow> Inl (FileNotFoundError p)
      | Some Dir \<Rightarrow> Inl (IsADirectoryError p)
      | Some (File (Png i)) \<Rightarrow> Inl (UnicodeDecodeError p)
      | Some (File (Text s)) \<Rightarrow> Inr (icon_names_of s))"

text \<open>Lines 139 and 142: the name without \<open>.png\<close> and the path of its icon.\<close>

definition clean_name :: "string \<Rightarrow> string" where
  "clean_name icon_name = replace ''.png'' [] icon_name"

definition output_path_of :: "string \<Rightarrow> string \<Rightarrow> string" where
  "output_path_of category_folder icon_name =
     join category_folder (clean_name icon_name @ ''.png'')"

text \<open>
  The loop of lines 137 to 152, with the count as accumulator.  The \<open>try\<close> catches
  every exception of \<open>draw_icon\<close>, so the loop itself has no error result.
\<close>

fun icon_loop ::
  "env \<Rightarrow> string \<Rightarrow> color \<Rightarrow> string \<Rightarrow> string \<Rightarrow> string \<Rightarrow> world \<Rightarrow> string list \<Rightarrow> nat
     \<Rightarrow> nat \<times> world" where
  "icon_loop e category_name color shape text category_folder w [] generated_count =
     (generated_count, w)"
| "icon_loop e category_name color shape text category_folder w (icon_name # rest)
       generated_count =
     (let output_path = output_path_of category_folder icon_name
      in if path_exists (fs w) output_path then
           icon_loop e category_name color shape text category_folder w rest generated_count
         else
           (case draw_icon e w category_name color shape text output_path of
              (Inr r, w') \<Rightarrow>
                icon_loop e category_name color shape text category_folder w' rest
                  (generated_count + 1)
            | (Inl err, w') \<Rightarrow>
                icon_loop e category_name color shape text category_folder
                  (print (GenError (clean_name icon_name) err) w') rest generated_count))"

definition generate_icons_for_category ::
  "env \<Rightarrow> world \<Rightarrow> string \<Rightarrow> (error + nat) \<times> world" where
  "generate_icons_for_category e w category_folder =
     (let category_name = basename category_folder
      in case resolve_style w category_name of
           (Inl err, w1) \<Rightarrow> (Inl err, w1)
         | (Inr (color, shape, text), w1) \<Rightarrow>
             (let icon_names_file = join category_folder ''icon-names.txt''
              in if \<not> path_exists (fs w1) icon_names_file then
                   (Inr 0, print (NoManifest category_folder) w1)
                 else
                   (case read_icon_names (fs w1) icon_names_file of
                      Inl err \<Rightarrow> (Inl err, w1)
                    | Inr icon_names \<Rightarrow>
                        (case icon_loop e category_name color shape text category_folder w1
                                 icon_names 0 of
                           (generated_count, w2) \<Rightarrow> (Inr generated_count, w2)))))"

section \<open>The directory walker\<close>

text \<open>
  The loop of lines 170 to 181 over the listing taken once at its start; the two
  counters are accumulators.  An exception of the category processor ends the run.
\<close>

fun main_loop ::
  "env \<Rightarrow> world \<Rightarrow> string list \<Rightarrow> nat \<Rightarrow> nat \<Rightarrow> (error + (nat \<times> nat)) \<times> world" where
  "main_loop e w [] total_generated categories_processed =
     (Inr (total_generated, categories_processed), w)"
| "main_loop e w (item # items) total_generated categories_processed =
     (let category_path = join ICONS_DIR item
      in if isdir (fs w) category_path then
           (case generate_icons_for_category e (print (Processing item) w) category_path of
              (Inl err, w') \<Rightarrow> (Inl err, w')
            | (Inr count, w') \<Rightarrow>
                main_loop e
                  (print (if count > 0 then GeneratedNew count else NothingNew) w')
                  items (total_generated + count) (categories_processed + 1))
         else main_loop e w items total_generated categories_processed)"

definition main :: "env \<Rightarrow> world \<Rightarrow> (error + unit) \<times> world" where
  "main e w =
     (if \<not> path_exists (fs w) ICONS_DIR then
        (Inr (), print RunReorganizeFirst (print (IconsDirNotFound ICONS_DIR) w))
      else
        (let w1 = print Rule (print Banner w)
         in case listdir (fs w1) ICONS_DIR of
              Inl err \<Rightarrow> (Inl err, w1)
            | Inr items \<Rightarrow>
                (case main_loop e w1 items 0 0 of
                   (Inl err, w2) \<Rightarrow> (Inl err, w2)
                 | (Inr (total_generated, categories_processed), w2) \<Rightarrow>
                     (Inr (),
                      print Rule
                        (print (IconsDirectory (abspath e ICONS_DIR))
                          (print (Complete total_generated categories_processed)
                            (print Rule w2)))))))"

section \<open>Sample environments and folder structures\<close>

text \<open>
  A machine without \<open>arial.ttf\<close> whose built-in font measures every label as 18 by 11
  pixels, once with every path writable and once with none.
\<close>

definition env_demo :: env where
  "env_demo = \<lparr>truetype = (\<lambda>name sz. None), load_default = Some DefaultFont,
                textbbox = (\<lambda>f t. Inr (0, 0, 18, 11)), writable = (\<lambda>p. True),
                getcwd = ''/home/u''\<rparr>"

definition env_readonly :: env where
  "env_readonly = env_demo\<lparr>writable := (\<lambda>p. False)\<rparr>"

text \<open>No root directory at all.\<close>

definition world_empty :: world where
  "world_empty = \<lparr>fs = [], out = []\<rparr>"

text \<open>
  The root with the folders \<open>objectives\<close> (manifest \<open>alpha\<close>, \<open>beta.png\<close>) and
  \<open>unknown-cat\<close> (manifest \<open>gamma\<close>).
\<close>

definition world_demo :: world where
  "world_demo =
     \<lparr>fs = [(''icons-pathfinding'', Dir),
            (''icons-pathfinding/objectives'', Dir),
            (''icons-pathfinding/objectives/icon-names.txt'',
               File (Text ''alpha\<newline>beta.png\<newline>'')),
            (''icons-pathfinding/unknown-cat'', Dir),
            (''icons-pathfinding/unknown-cat/icon-names.txt'', File (Text ''gamma''))],
      out = []\<rparr>"


text \<open>The folder \<open>spawn\<close> has no manifest, its sibling \<open>extraction\<close> has one.\<close>

definition world_bare :: world where
  "world_bare =
     \<lparr>fs = [(''icons-pathfinding'', Dir),
            (''icons-pathfinding/spawn'', Dir),
            (''icons-pathfinding/extraction'', Dir),
            (''icons-pathfinding/extraction/icon-names.txt'', File (Text ''lift''))],
      out = []\<rparr>"

text \<open>
  As \<open>world_demo\<close> without the second folder, with a file \<open>alpha.png\<close> that somebody
  made by hand already in place.
\<close>

definition world_partial :: world where
  "world_partial =
     \<lparr>fs = [(''icons-pathfinding'', Dir),
            (''icons-pathfinding/objectives'', Dir),
            (''icons-pathfinding/objectives/icon-names.txt'',
               File (Text ''alpha\<newline>beta.png\<newline>'')),
            (''icons-pathfinding/objectives/alpha.png'', File (Text ''made by hand''))],
      out = []\<rparr>"

text \<open>The icons \<open>env_demo\<close> yields for \<open>objectives\<close> and for an unknown folder.\<close>

definition icon_demo_objectives :: image where
  "icon_demo_objectives =
     \<lparr>img_mode = ''RGBA'', img_size = (64, 64), img_background = ColorRGBA (0, 0, 0, 0),
      img_ops = [Polygon star_points bg_color (ColorRGB (255, 235, 59)) 2,
                 DrawText (23, 53 / 2) ''OBJ'' (ColorRGB (255, 235, 59)) (Some DefaultFont)]\<rparr>"

definition icon_demo_fallback :: image where
  "icon_demo_fallback =
     \<lparr>img_mode = ''RGBA'', img_size = (64, 64), img_background = ColorRGBA (0, 0, 0, 0),
      img_ops = [Ellipse [4, 4, 60, 60] bg_color (ColorName ''#9e9e9e'') 3,
                 DrawText (23, 53 / 2) ''???'' (ColorName ''#9e9e9e'') (Some DefaultFont)]\<rparr>"

section \<open>Notions used in the statements and proofs\<close>

text \<open>The warning line 119 prints for a folder name, as a list of zero or one line.\<close>

definition unknown_warning :: "string \<Rightarrow> msg list" where
  "unknown_warning category_name =
     (if map_of CATEGORY_STYLES category_name = None
      then [UnknownCategory category_name] else [])"









text \<open>
  \<open>extends_by P f f'\<close>: the file system \<open>f'\<close> is \<open>f\<close> followed by entries at paths
  that \<open>f\<close> did not have, each satisfying \<open>P\<close>.
\<close>

definition extends_by ::
  "(string \<Rightarrow> node \<Rightarrow> bool) \<Rightarrow> (string \<times> node) list \<Rightarrow> (string \<times> node) list \<Rightarrow> bool" where
  "extends_by P f f' =
     (\<exists>new. f' = f @ new \<and> (\<forall>kv \<in> set new. map_of f (fst kv) = None \<and> P (fst kv) (snd kv)))"

text \<open>An entry the generator may add: an image file whose path ends in \<open>.png\<close>.\<close>

definition icon_entry :: "string \<Rightarrow> node \<Rightarrow> bool" where
  "icon_entry k v = ((\<exists>img. v = File (Png img)) \<and> suffix ''.png'' k)"

text \<open>Whether an icon of this style can be produced at a path that is still free.\<close>

definition drawable :: "env \<Rightarrow> string \<Rightarrow> color \<times> string \<times> string \<Rightarrow> string \<Rightarrow> bool" where
  "drawable e category_name style p =
     ((case render_icon e category_name (fst style) (fst (snd style)) (snd (snd style)) of
         Inl err \<Rightarrow> False | Inr img \<Rightarrow> True) \<and> writable e p)"

text \<open>
  A folder is settled when the processor has nothing left to create in it: it has no
  manifest, or every name of its manifest has its file or cannot be drawn.
\<close>

definition settled :: "env \<Rightarrow> (string \<times> node) list \<Rightarrow> string \<Rightarrow> bool" where
  "settled e f category_folder =
     (case map_of f (join category_folder ''icon-names.txt'') of
        None \<Rightarrow> True
      | Some Dir \<Rightarrow> False
      | Some (File (Png i)) \<Rightarrow> False
      | Some (File (Text s)) \<Rightarrow>
          (case lookup_style (basename category_folder) of
             Inl err \<Rightarrow> False
           | Inr style \<Rightarrow>
               list_all (\<lambda>n. path_exists f (output_path_of category_folder n)
                              \<or> \<not> drawable e (basename category_folder) style
                                     (output_path_of category_folder n))
                        (icon_names_of s)))"

section \<open>Basic facts about the model\<close>

lemma print_simps [simp]:
  "fs (print m w) = fs w" "out (print m w) = out w @ [m]"
  by (simp_all add: print_def)

lemma lookup_style_known:
  "map_of CATEGORY_STYLES n = Some (h, s, t) \<Longrightarrow> \<exists>rgb. lookup_style n = Inr (ColorRGB rgb, s, t)"
  by (auto simp: lookup_style_def CATEGORY_STYLES_def hex_to_rgb_def int16_def hex_digit_def
           split: if_splits)

lemma lookup_style_total: "\<exists>style. lookup_style n = Inr style"
proof (cases "map_of CATEGORY_STYLES n")
  case None
  then show ?thesis by (simp add: lookup_style_def)
next
  case (Some a)
  then show ?thesis by (cases a) (use lookup_style_known in fastforce)
qed

section \<open>The renderer\<close>

text \<open>
  C10.  The image \<open>draw_icon\<close> builds and the file system it leaves depend on the
  colour, the shape, the label, the path and the environment only: two calls that
  differ in the category alone produce the same image and the same result.
\<close>

theorem draw_icon_ignores_category:
  "render_icon e category1 color shape text = render_icon e category2 color shape text
   \<and> draw_icon e w category1 color shape text output_path
     = draw_icon e w category2 color shape text output_path"
  by (simp add: render_icon_def draw_icon_def)

lemma star_points_length: "length star_points = 10"
  by (simp add: star_points_def)

lemma shape_ops_star: "shape_ops color ''star'' = [Polygon star_points bg_color color 2]"
  by (simp add: shape_ops_def star_points_length)

lemma shape_ops_circle: "shape_ops color ''circle'' = [Ellipse [4, 4, 60, 60] bg_color color 3]"
  by (simp add: shape_ops_def ICON_SIZE_def)

lemma render_icon_ops:
  "render_icon e cn color shape label = Inr img \<Longrightarrow> \<exists>l. img_ops img = shape_ops color shape @ l"
  by (auto simp: render_icon_def Let_def split: sum.splits)

text \<open>
  C9.  The vertices the \<open>star\<close> branch hands to the polygon call.  There are ten, but
  every one has equal coordinates: they all lie on the diagonal through the centre
  (32, 32), at four distinct places.  Each coordinate pair is computed by one and the
  same expression in the source, so rounding cannot separate them.  A polygon on one
  line has neither three non-collinear vertices nor five-fold symmetry.
\<close>

theorem star_points_on_one_line:
  "star_points =
     [(272 / 5, 272 / 5), (40, 40), (272 / 5, 272 / 5), (40, 40), (272 / 5, 272 / 5),
      (24, 24), (48 / 5, 48 / 5), (24, 24), (48 / 5, 48 / 5), (24, 24)]
   \<and> map fst star_points = map snd star_points
   \<and> set star_points = {(272 / 5, 272 / 5), (40, 40), (24, 24), (48 / 5, 48 / 5)}
   \<and> shape_ops color ''star'' = [Polygon star_points bg_color color 2]"
proof -
  have upt: "[0..<10] = [0, 1, 2, 3, 4, 5, 6, 7, 8, 9::nat]"
    by (simp add: upt_rec)
  have pts: "star_points =
     [(272 / 5, 272 / 5), (40, 40), (272 / 5, 272 / 5), (40, 40), (272 / 5, 272 / 5),
      (24, 24), (48 / 5, 48 / 5), (24, 24), (48 / 5, 48 / 5), (24, 24)]"
    unfolding star_points_def upt by (simp add: star_point_def ICON_SIZE_def Let_def)
  have diag: "map fst star_points = map snd star_points"
    unfolding pts by simp
  have four: "set star_points = {(272 / 5, 272 / 5), (40, 40), (24, 24), (48 / 5, 48 / 5)}"
    unfolding pts by auto
  have "shape_ops color ''star'' = [Polygon star_points bg_color color 2]"
    by (rule shape_ops_star)
  with pts diag four show ?thesis by blast
qed

section \<open>Names and paths\<close>

text \<open>
  C4.  A trailing \<open>.png\<close> is removed, so \<open>foo.png\<close> and \<open>foo\<close> share the path
  \<open>foo.png\<close>.  But line 139 calls \<open>replace\<close>, which removes every occurrence: the
  entry \<open>a.png.bak\<close> loses its inner \<open>.png\<close> and lands on the path of the entry
  \<open>a.bak\<close>.
\<close>

theorem inner_png_removed:
  "output_path_of ''icons-pathfinding/objectives'' ''foo.png''
     = ''icons-pathfinding/objectives/foo.png''
   \<and> output_path_of ''icons-pathfinding/objectives'' ''foo''
     = ''icons-pathfinding/objectives/foo.png''
   \<and> output_path_of ''icons-pathfinding/objectives'' ''a.png.bak''
     = ''icons-pathfinding/objectives/a.bak.png''
   \<and> output_path_of ''icons-pathfinding/objectives'' ''a.png.bak''
     = output_path_of ''icons-pathfinding/objectives'' ''a.bak''"
  by (simp add: output_path_of_def clean_name_def join_def)

section \<open>The entry point without a root directory\<close>

text \<open>
  C7.  When the root directory does not exist, \<open>main\<close> prints the error and the hint
  to run the folder-structure step first, and returns normally: no category is
  processed, the file system is untouched and nothing else is printed.
\<close>

theorem main_missing_root:
  assumes "\<not> path_exists (fs w) ICONS_DIR"
  shows "main e w = (Inr (), w\<lparr>out := out w @ [IconsDirNotFound ICONS_DIR, RunReorganizeFirst]\<rparr>)"
  using assms by (simp add: main_def print_def)

theorem main_missing_root_witness:
  "\<not> path_exists (fs world_empty) ICONS_DIR
   \<and> main env_demo world_empty
     = (Inr (), world_empty\<lparr>out := [IconsDirNotFound ''icons-pathfinding'', RunReorganizeFirst]\<rparr>)"
proof -
  have h: "\<not> path_exists (fs world_empty) ICONS_DIR"
    by (simp add: path_exists_def world_empty_def)
  show ?thesis
    using h main_missing_root [OF h, of env_demo] by (simp add: world_empty_def ICONS_DIR_def)
qed

section \<open>Failures inside the category processor\<close>

lemma save_failure_keeps_world: "save e w img p = (Inl err, w') \<Longrightarrow> w' = w"
  by (auto simp: save_def split: if_splits)

lemma draw_icon_failure_keeps_world:
  "draw_icon e w cn color shape label p = (Inl err, w') \<Longrightarrow> w' = w"
  by (auto simp: draw_icon_def split: sum.splits prod.splits dest: save_failure_keeps_world)

lemma resolve_style_eq:
  "resolve_style w n = (lookup_style n, w\<lparr>out := out w @ unknown_warning n\<rparr>)"
  by (simp add: resolve_style_def unknown_warning_def print_def)

text \<open>
  C5.  When the file of a name does not exist yet and \<open>draw_icon\<close> raises for it, the
  loop prints the error with the name, leaves the count and the file system as they
  are, and goes on with the rest of the list.  The only exceptions that leave the
  processor are those of reading the manifest.
\<close>

theorem icon_failure_contained:
  "(\<not> path_exists (fs w) (output_path_of category_folder icon_name)
      \<and> draw_icon e w category_name color shape label (output_path_of category_folder icon_name)
          = (Inl err, w')
     \<longrightarrow> icon_loop e category_name color shape label category_folder w (icon_name # rest)
           generated_count
         = icon_loop e category_name color shape label category_folder
             (w\<lparr>out := out w @ [GenError (clean_name icon_name) err]\<rparr>) rest generated_count)
   \<and> (fst (generate_icons_for_category e w category_folder) = Inl err
     \<longrightarrow> err = IsADirectoryError (join category_folder ''icon-names.txt'')
         \<or> err = UnicodeDecodeError (join category_folder ''icon-names.txt''))"
proof (intro conjI impI)
  assume a: "\<not> path_exists (fs w) (output_path_of category_folder icon_name)
      \<and> draw_icon e w category_name color shape label (output_path_of category_folder icon_name)
          = (Inl err, w')"
  then have "w' = w"
    using draw_icon_failure_keeps_world by blast
  with a show "icon_loop e category_name color shape label category_folder w (icon_name # rest)
           generated_count
         = icon_loop e category_name color shape label category_folder
             (w\<lparr>out := out w @ [GenError (clean_name icon_name) err]\<rparr>) rest generated_count"
    by (simp add: print_def)
next
  assume b: "fst (generate_icons_for_category e w category_folder) = Inl err"
  obtain style where st: "lookup_style (basename category_folder) = Inr style"
    using lookup_style_total by blast
  from b st show "err = IsADirectoryError (join category_folder ''icon-names.txt'')
         \<or> err = UnicodeDecodeError (join category_folder ''icon-names.txt'')"
    by (cases style)
       (auto simp: generate_icons_for_category_def resolve_style_eq read_icon_names_def
                   path_exists_def Let_def
             split: if_splits sum.splits prod.splits option.splits node.splits content.splits)
qed

theorem icon_failure_contained_witness:
  "\<not> path_exists (fs world_demo) (output_path_of ''icons-pathfinding/objectives'' ''alpha'')
   \<and> draw_icon env_readonly world_demo ''objectives'' (ColorRGB (255, 235, 59)) ''star'' ''OBJ''
         (output_path_of ''icons-pathfinding/objectives'' ''alpha'')
       = (Inl (OSError ''icons-pathfinding/objectives/alpha.png''), world_demo)
   \<and> icon_loop env_readonly ''objectives'' (ColorRGB (255, 235, 59)) ''star'' ''OBJ''
         ''icons-pathfinding/objectives'' world_demo [''alpha'', ''beta.png''] 0
       = icon_loop env_readonly ''objectives'' (ColorRGB (255, 235, 59)) ''star'' ''OBJ''
           ''icons-pathfinding/objectives''
           (world_demo\<lparr>out := out world_demo
              @ [GenError (clean_name ''alpha'') (OSError ''icons-pathfinding/objectives/alpha.png'')]\<rparr>)
           [''beta.png''] 0
   \<and> generate_icons_for_category env_readonly world_demo ''icons-pathfinding/objectives''
       = (Inr 0, world_demo\<lparr>out :=
            [GenError ''alpha'' (OSError ''icons-pathfinding/objectives/alpha.png''),
             GenError ''beta'' (OSError ''icons-pathfinding/objectives/beta.png'')]\<rparr>)"
proof -
  have h1: "\<not> path_exists (fs world_demo) (output_path_of ''icons-pathfinding/objectives'' ''alpha'')"
    by code_simp
  have h2: "draw_icon env_readonly world_demo ''objectives'' (ColorRGB (255, 235, 59)) ''star'' ''OBJ''
         (output_path_of ''icons-pathfinding/objectives'' ''alpha'')
       = (Inl (OSError ''icons-pathfinding/objectives/alpha.png''), world_demo)"
    by code_simp
  have h3: "generate_icons_for_category env_readonly world_demo ''icons-pathfinding/objectives''
       = (Inr 0, world_demo\<lparr>out :=
            [GenError ''alpha'' (OSError ''icons-pathfinding/objectives/alpha.png''),
             GenError ''beta'' (OSError ''icons-pathfinding/objectives/beta.png'')]\<rparr>)"
    by code_simp
  show ?thesis
    using h1 h2 h3
      icon_failure_contained [where w = world_demo and w' = world_demo
        and category_folder = "''icons-pathfinding/objectives''" and icon_name = "''alpha''"
        and e = env_readonly and category_name = "''objectives''"
        and color = "ColorRGB (255, 235, 59)" and shape = "''star''" and label = "''OBJ''"
        and err = "OSError ''icons-pathfinding/objectives/alpha.png''"
        and rest = "[''beta.png'']" and generated_count = 0]
    by blast
qed

section \<open>A folder without a manifest\<close>

text \<open>
  C6.  A folder without \<open>icon-names.txt\<close>: the processor prints the warning (after
  the warning for an unknown category, if that applies), returns 0 and raises
  nothing; the file system is as before.  In the walker such a folder counts as
  processed with nothing new, and the loop goes on with the remaining entries.
\<close>

theorem missing_manifest_skipped:
  "(\<not> path_exists (fs w) (join category_folder ''icon-names.txt'')
     \<longrightarrow> generate_icons_for_category e w category_folder
         = (Inr 0, w\<lparr>out := out w @ unknown_warning (basename category_folder)
                                @ [NoManifest category_folder]\<rparr>))
   \<and> (isdir (fs w) (join ICONS_DIR item)
      \<and> \<not> path_exists (fs w) (join (join ICONS_DIR item) ''icon-names.txt'')
     \<longrightarrow> main_loop e w (item # items) total_generated categories_processed
         = main_loop e
             (w\<lparr>out := out w @ [Processing item]
                @ unknown_warning (basename (join ICONS_DIR item))
                @ [NoManifest (join ICONS_DIR item), NothingNew]\<rparr>)
             items total_generated (categories_processed + 1))"
proof -
  have gen: "generate_icons_for_category e v folder
         = (Inr 0, v\<lparr>out := out v @ unknown_warning (basename folder) @ [NoManifest folder]\<rparr>)"
    if "\<not> path_exists (fs v) (join folder ''icon-names.txt'')" for v folder
  proof -
    obtain style where st: "lookup_style (basename folder) = Inr style"
      using lookup_style_total by blast
    show ?thesis
      using that st
      by (cases style)
         (simp add: generate_icons_for_category_def resolve_style_eq print_def Let_def)
  qed
  show ?thesis
  proof (intro conjI impI)
    assume "\<not> path_exists (fs w) (join category_folder ''icon-names.txt'')"
    then show "generate_icons_for_category e w category_folder
         = (Inr 0, w\<lparr>out := out w @ unknown_warning (basename category_folder)
                                @ [NoManifest category_folder]\<rparr>)"
      by (rule gen)
  next
    assume a: "isdir (fs w) (join ICONS_DIR item)
      \<and> \<not> path_exists (fs w) (join (join ICONS_DIR item) ''icon-names.txt'')"
    then have "\<not> path_exists (fs (print (Processing item) w))
                  (join (join ICONS_DIR item) ''icon-names.txt'')"
      by simp
    from gen [OF this] a
    show "main_loop e w (item # items) total_generated categories_processed
         = main_loop e
             (w\<lparr>out := out w @ [Processing item]
                @ unknown_warning (basename (join ICONS_DIR item))
                @ [NoManifest (join ICONS_DIR item), NothingNew]\<rparr>)
             items total_generated (categories_processed + 1)"
      by (simp add: print_def Let_def)
  qed
qed

theorem missing_manifest_skipped_witness:
  "\<not> path_exists (fs world_bare) (join ''icons-pathfinding/spawn'' ''icon-names.txt'')
   \<and> generate_icons_for_category env_demo world_bare ''icons-pathfinding/spawn''
       = (Inr 0, world_bare\<lparr>out := out world_bare
            @ unknown_warning (basename ''icons-pathfinding/spawn'')
            @ [NoManifest ''icons-pathfinding/spawn'']\<rparr>)
   \<and> isdir (fs world_bare) (join ICONS_DIR ''spawn'')
   \<and> \<not> path_exists (fs world_bare) (join (join ICONS_DIR ''spawn'') ''icon-names.txt'')
   \<and> main_loop env_demo world_bare [''spawn'', ''extraction''] 0 0
       = main_loop env_demo
           (world_bare\<lparr>out := out world_bare @ [Processing ''spawn'']
              @ unknown_warning (basename (join ICONS_DIR ''spawn''))
              @ [NoManifest (join ICONS_DIR ''spawn''), NothingNew]\<rparr>)
           [''extraction''] 0 (0 + 1)
   \<and> main_loop env_demo world_bare [''spawn'', ''extraction''] 0 0
       = (Inr (1, 2),
          world_bare\<lparr>fs := fs world_bare
               @ [(''icons-pathfinding/extraction/lift.png'',
                   File (Png \<lparr>img_mode = ''RGBA'', img_size = (64, 64),
                     img_background = ColorRGBA (0, 0, 0, 0),
                     img_ops = shape_ops (ColorRGB (38, 198, 218)) ''arrow_up''
                       @ [DrawText (23, 53 / 2) ''EXI'' (ColorRGB (38, 198, 218))
                            (Some DefaultFont)]\<rparr>))],
             out := [Processing ''spawn'', NoManifest ''icons-pathfinding/spawn'', NothingNew,
                     Processing ''extraction'', GeneratedNew 1]\<rparr>)"
proof -
  have h1: "\<not> path_exists (fs world_bare) (join ''icons-pathfinding/spawn'' ''icon-names.txt'')"
    by code_simp
  have h2: "isdir (fs world_bare) (join ICONS_DIR ''spawn'')"
    by code_simp
  have h3: "\<not> path_exists (fs world_bare) (join (join ICONS_DIR ''spawn'') ''icon-names.txt'')"
    by code_simp
  have run: "main_loop env_demo world_bare [''spawn'', ''extraction''] 0 0
       = (Inr (1, 2),
          world_bare\<lparr>fs := fs world_bare
               @ [(''icons-pathfinding/extraction/lift.png'',
                   File (Png \<lparr>img_mode = ''RGBA'', img_size = (64, 64),
                     img_background = ColorRGBA (0, 0, 0, 0),
                     img_ops = shape_ops (ColorRGB (38, 198, 218)) ''arrow_up''
                       @ [DrawText (23, 53 / 2) ''EXI'' (ColorRGB (38, 198, 218))
                            (Some DefaultFont)]\<rparr>))],
             out := [Processing ''spawn'', NoManifest ''icons-pathfinding/spawn'', NothingNew,
                     Processing ''extraction'', GeneratedNew 1]\<rparr>)"
    by code_simp
  show ?thesis
    using h1 h2 h3 run
      missing_manifest_skipped [where w = world_bare
        and category_folder = "''icons-pathfinding/spawn''" and item = "''spawn''"
        and e = env_demo and items = "[''extraction'']" and total_generated = 0
        and categories_processed = 0]
    by blast
qed

section \<open>How the file system grows\<close>

lemma update_fresh: "map_of al k = None \<Longrightarrow> AList.update k v al = al @ [(k, v)]"
  by (induction al) (auto split: if_splits)

lemma extends_by_refl: "extends_by P f f"
  by (simp add: extends_by_def)

lemma extends_by_snoc: "map_of f k = None \<Longrightarrow> P k v \<Longrightarrow> extends_by P f (f @ [(k, v)])"
  by (simp add: extends_by_def)

lemma extends_by_trans:
  assumes "extends_by P f g" and "extends_by P g h"
  shows "extends_by P f h"
proof -
  from assms(1) obtain n1 where g: "g = f @ n1"
    and p1: "\<forall>kv \<in> set n1. map_of f (fst kv) = None \<and> P (fst kv) (snd kv)"
    by (auto simp: extends_by_def)
  from assms(2) obtain n2 where h: "h = g @ n2"
    and p2: "\<forall>kv \<in> set n2. map_of g (fst kv) = None \<and> P (fst kv) (snd kv)"
    by (auto simp: extends_by_def)
  have "\<forall>kv \<in> set (n1 @ n2). map_of f (fst kv) = None \<and> P (fst kv) (snd kv)"
    using p1 p2 by (auto simp: g)
  moreover have "h = f @ (n1 @ n2)"
    by (simp add: g h)
  ultimately show ?thesis
    unfolding extends_by_def by blast
qed

lemma extends_by_mono:
  assumes "extends_by P f g" and "\<And>k v. P k v \<Longrightarrow> Q k v"
  shows "extends_by Q f g"
  using assms unfolding extends_by_def by blast

lemma extends_by_prefix: "extends_by P f g \<Longrightarrow> prefix f g"
  by (auto simp: extends_by_def)

lemma extends_by_old:
  assumes "extends_by P f g" and "map_of f k = Some v"
  shows "map_of g k = Some v"
  using assms by (auto simp: extends_by_def map_add_def)

lemma extends_by_new:
  assumes "extends_by P f g" and "map_of f k = None" and "map_of g k = Some v"
  shows "P k v"
proof -
  from assms(1) obtain new where g: "g = f @ new"
    and p: "\<forall>kv \<in> set new. map_of f (fst kv) = None \<and> P (fst kv) (snd kv)"
    by (auto simp: extends_by_def)
  from assms(2,3) have "map_of new k = Some v"
    by (simp add: g map_add_def)
  then have "(k, v) \<in> set new"
    by (rule map_of_SomeD)
  with p show ?thesis by fastforce
qed

lemma extends_by_exists:
  "extends_by P f g \<Longrightarrow> path_exists f k \<Longrightarrow> path_exists g k"
  by (auto simp: path_exists_def dest: extends_by_old)

lemma icon_entry_not_dir: "icon_entry k v \<Longrightarrow> v \<noteq> Dir"
  by (auto simp: icon_entry_def)

lemma extends_by_isdir:
  assumes "extends_by icon_entry f g"
  shows "isdir g k = isdir f k"
proof (cases "map_of f k")
  case None
  then have "map_of g k \<noteq> Some Dir"
    using extends_by_new [OF assms None] icon_entry_not_dir by blast
  with None show ?thesis by (simp add: isdir_def)
next
  case (Some v)
  then show ?thesis
    using extends_by_old [OF assms Some] by (simp add: isdir_def)
qed

subsection \<open>Paths of icons and of manifests\<close>

lemma join_cases:
  "join a b = b \<or> join a b = a @ b \<or> join a b = a @ ''/'' @ b"
  by (simp add: join_def)

lemma join_suffix: "suffix b (join a b)"
  using join_cases [of a b] by (auto simp: suffix_def)

lemma output_path_suffix: "suffix ''.png'' (output_path_of folder n)"
proof -
  have "suffix (clean_name n @ ''.png'') (output_path_of folder n)"
    unfolding output_path_of_def by (rule join_suffix)
  then show ?thesis
    by (metis suffix_appendD suffix_order.refl suffix_order.trans suffixI)
qed

lemma manifest_not_png: "\<not> suffix ''.png'' (join folder ''icon-names.txt'')"
proof
  assume "suffix ''.png'' (join folder ''icon-names.txt'')"
  then obtain xs where a: "join folder ''icon-names.txt'' = xs @ ''.png''"
    by (auto simp: suffix_def)
  obtain ys where b: "join folder ''icon-names.txt'' = ys @ ''icon-names.txt''"
    using join_suffix [of "''icon-names.txt''" folder] by (auto simp: suffix_def)
  have "last (xs @ ''.png'') = CHR ''g''" by simp
  moreover have "last (ys @ ''icon-names.txt'') = CHR ''t''" by simp
  ultimately show False using a b by simp
qed

lemma extends_by_manifest:
  assumes "extends_by icon_entry f g"
  shows "map_of g (join folder ''icon-names.txt'') = map_of f (join folder ''icon-names.txt'')"
proof (cases "map_of f (join folder ''icon-names.txt'')")
  case None
  show ?thesis
  proof (cases "map_of g (join folder ''icon-names.txt'')")
    case inner: None
    with None show ?thesis by simp
  next
    case (Some v)
    then have "icon_entry (join folder ''icon-names.txt'') v"
      using extends_by_new [OF assms None] by blast
    then show ?thesis
      using manifest_not_png by (simp add: icon_entry_def)
  qed
next
  case (Some v)
  then show ?thesis
    using extends_by_old [OF assms Some] by simp
qed

subsection \<open>One call of the renderer\<close>

lemma draw_icon_fresh:
  assumes "\<not> path_exists (fs w) p"
  shows "draw_icon e w cn color shape label p =
     (case render_icon e cn color shape label of
        Inl err \<Rightarrow> (Inl err, w)
      | Inr img \<Rightarrow>
          if writable e p then (Inr p, w\<lparr>fs := fs w @ [(p, File (Png img))]\<rparr>)
          else (Inl (OSError p), w))"
  using assms
  by (auto simp: draw_icon_def save_def path_exists_def update_fresh split: sum.splits)

lemma draw_icon_drawable:
  assumes "\<not> path_exists (fs w) p" and "drawable e cn (color, shape, label) p"
  shows "\<exists>img. render_icon e cn color shape label = Inr img
     \<and> draw_icon e w cn color shape label p = (Inr p, w\<lparr>fs := fs w @ [(p, File (Png img))]\<rparr>)"
  using assms(2) draw_icon_fresh [OF assms(1)]
  by (auto simp: drawable_def split: sum.splits)

lemma draw_icon_not_drawable:
  assumes "\<not> path_exists (fs w) p" and "\<not> drawable e cn (color, shape, label) p"
  shows "\<exists>err. draw_icon e w cn color shape label p = (Inl err, w)"
  using assms(2) draw_icon_fresh [OF assms(1)]
  by (auto simp: drawable_def split: sum.splits)

lemma draw_icon_result:
  assumes "\<not> path_exists (fs w) p" and "draw_icon e w cn color shape label p = (r, w')"
  shows "(\<exists>err. r = Inl err \<and> w' = w \<and> \<not> drawable e cn (color, shape, label) p)
       \<or> (\<exists>img. r = Inr p \<and> render_icon e cn color shape label = Inr img
              \<and> drawable e cn (color, shape, label) p
              \<and> w' = w\<lparr>fs := fs w @ [(p, File (Png img))]\<rparr>)"
  using assms(2) draw_icon_fresh [OF assms(1), of e cn color shape label]
  by (auto simp: drawable_def split: sum.splits if_splits)

section \<open>The loop over the names of a manifest\<close>

lemma icon_loop_extends:
  "icon_loop e cn color shape label folder w names c = (c', w') \<Longrightarrow>
   extends_by (\<lambda>k v. k \<in> output_path_of folder ` set names
                 \<and> (\<exists>img. render_icon e cn color shape label = Inr img \<and> v = File (Png img)))
     (fs w) (fs w')"
proof (induction names arbitrary: w c)
  case Nil
  then show ?case by (simp add: extends_by_refl)
next
  case (Cons n ns)
  let ?p = "output_path_of folder n"
  let ?P = "\<lambda>names k v. k \<in> output_path_of folder ` set names
                 \<and> (\<exists>img. render_icon e cn color shape label = Inr img \<and> v = File (Png img))"
  have weaken: "extends_by (?P (n # ns)) f g" if "extends_by (?P ns) f g" for f g
    using that by (rule extends_by_mono) auto
  show ?case
  proof (cases "path_exists (fs w) ?p")
    case True
    with Cons.prems have "icon_loop e cn color shape label folder w ns c = (c', w')"
      by simp
    then show ?thesis
      using Cons.IH weaken by blast
  next
    case False
    obtain r w1 where d: "draw_icon e w cn color shape label ?p = (r, w1)"
      by (cases "draw_icon e w cn color shape label ?p")
    from draw_icon_result [OF False d] show ?thesis
    proof (elim disjE exE conjE)
      fix err
      assume r: "r = Inl err" and w1: "w1 = w"
      with Cons.prems False d
      have "icon_loop e cn color shape label folder (print (GenError (clean_name n) err) w) ns c
              = (c', w')"
        by simp
      from Cons.IH [OF this] show ?thesis
        using weaken by simp
    next
      fix img
      assume r: "r = Inr ?p" and img: "render_icon e cn color shape label = Inr img"
        and w1: "w1 = w\<lparr>fs := fs w @ [(?p, File (Png img))]\<rparr>"
      with Cons.prems False d
      have "icon_loop e cn color shape label folder w1 ns (c + 1) = (c', w')"
        by simp
      from Cons.IH [OF this] have rest: "extends_by (?P (n # ns)) (fs w1) (fs w')"
        by (rule weaken)
      have "extends_by (?P (n # ns)) (fs w) (fs w1)"
        unfolding w1 using False img
        by (simp add: extends_by_snoc path_exists_def)
      then show ?thesis
        using rest by (rule extends_by_trans)
    qed
  qed
qed

lemma icon_loop_settled:
  "icon_loop e cn color shape label folder w names c = (c', w') \<Longrightarrow>
   \<forall>n \<in> set names. path_exists (fs w') (output_path_of folder n)
       \<or> \<not> drawable e cn (color, shape, label) (output_path_of folder n)"
proof (induction names arbitrary: w c)
  case Nil
  then show ?case by simp
next
  case (Cons n ns)
  let ?p = "output_path_of folder n"
  show ?case
  proof (cases "path_exists (fs w) ?p")
    case True
    with Cons.prems have run: "icon_loop e cn color shape label folder w ns c = (c', w')"
      by simp
    have "path_exists (fs w') ?p"
      using icon_loop_extends [OF run] True by (rule extends_by_exists)
    with Cons.IH [OF run] show ?thesis by simp
  next
    case False
    obtain r w1 where d: "draw_icon e w cn color shape label ?p = (r, w1)"
      by (cases "draw_icon e w cn color shape label ?p")
    from draw_icon_result [OF False d] show ?thesis
    proof (elim disjE exE conjE)
      fix err
      assume r: "r = Inl err" and w1: "w1 = w"
        and nd: "\<not> drawable e cn (color, shape, label) ?p"
      with Cons.prems False d
      have "icon_loop e cn color shape label folder (print (GenError (clean_name n) err) w) ns c
              = (c', w')"
        by simp
      from Cons.IH [OF this] nd show ?thesis by simp
    next
      fix img
      assume r: "r = Inr ?p"
        and w1: "w1 = w\<lparr>fs := fs w @ [(?p, File (Png img))]\<rparr>"
      with Cons.prems False d
      have run: "icon_loop e cn color shape label folder w1 ns (c + 1) = (c', w')"
        by simp
      have "path_exists (fs w1) ?p"
        using False by (simp add: w1 path_exists_def map_add_def)
      then have "path_exists (fs w') ?p"
        using icon_loop_extends [OF run] extends_by_exists by blast
      with Cons.IH [OF run] show ?thesis by simp
    qed
  qed
qed

lemma icon_loop_noop:
  "\<forall>n \<in> set names. path_exists (fs w) (output_path_of folder n)
       \<or> \<not> drawable e cn (color, shape, label) (output_path_of folder n) \<Longrightarrow>
   \<exists>ms. icon_loop e cn color shape label folder w names c = (c, w\<lparr>out := out w @ ms\<rparr>)"
proof (induction names arbitrary: w)
  case Nil
  have "w = w\<lparr>out := out w @ []\<rparr>" by simp
  then show ?case by (metis icon_loop.simps(1))
next
  case (Cons n ns)
  let ?p = "output_path_of folder n"
  show ?case
  proof (cases "path_exists (fs w) ?p")
    case True
    then show ?thesis
      using Cons.IH [of w] Cons.prems by simp
  next
    case False
    with Cons.prems have "\<not> drawable e cn (color, shape, label) ?p"
      by simp
    from draw_icon_not_drawable [OF False this]
    obtain err where d: "draw_icon e w cn color shape label ?p = (Inl err, w)"
      by blast
    let ?w = "print (GenError (clean_name n) err) w"
    have "\<forall>n \<in> set ns. path_exists (fs ?w) (output_path_of folder n)
       \<or> \<not> drawable e cn (color, shape, label) (output_path_of folder n)"
      using Cons.prems by simp
    from Cons.IH [OF this] obtain ms
      where "icon_loop e cn color shape label folder ?w ns c = (c, ?w\<lparr>out := out ?w @ ms\<rparr>)"
      by blast
    then have "icon_loop e cn color shape label folder w (n # ns) c
                 = (c, w\<lparr>out := out w @ (GenError (clean_name n) err # ms)\<rparr>)"
      using False d by (simp add: print_def)
    then show ?thesis by blast
  qed
qed


section \<open>The category processor as a whole\<close>

lemma generate_unfold:
  assumes "lookup_style (basename folder) = Inr (color, shape, label)"
  shows "generate_icons_for_category e w folder =
     (if \<not> path_exists (fs w) (join folder ''icon-names.txt'') then
        (Inr 0, w\<lparr>out := out w @ unknown_warning (basename folder) @ [NoManifest folder]\<rparr>)
      else
        (case read_icon_names (fs w) (join folder ''icon-names.txt'') of
           Inl err \<Rightarrow> (Inl err, w\<lparr>out := out w @ unknown_warning (basename folder)\<rparr>)
         | Inr icon_names \<Rightarrow>
             (case icon_loop e (basename folder) color shape label folder
                     (w\<lparr>out := out w @ unknown_warning (basename folder)\<rparr>) icon_names 0 of
                (generated_count, w2) \<Rightarrow> (Inr generated_count, w2))))"
  using assms
  by (simp add: generate_icons_for_category_def resolve_style_eq Let_def print_def)

lemma generate_extends_style:
  assumes "lookup_style (basename folder) = Inr (color, shape, label)"
    and "generate_icons_for_category e w folder = (r, w')"
  shows "extends_by (\<lambda>k v. suffix ''.png'' k
             \<and> (\<exists>img. render_icon e (basename folder) color shape label = Inr img
                     \<and> v = File (Png img)))
           (fs w) (fs w')"
proof -
  let ?P = "\<lambda>k v. suffix ''.png'' k
             \<and> (\<exists>img. render_icon e (basename folder) color shape label = Inr img
                     \<and> v = File (Png img))"
  let ?w = "w\<lparr>out := out w @ unknown_warning (basename folder)\<rparr>"
  have loop: "extends_by ?P (fs w) (fs w2)"
    if "icon_loop e (basename folder) color shape label folder ?w names 0 = (c, w2)"
    for names c w2
  proof -
    from icon_loop_extends [OF that] have
      "extends_by (\<lambda>k v. k \<in> output_path_of folder ` set names
                 \<and> (\<exists>img. render_icon e (basename folder) color shape label = Inr img
                         \<and> v = File (Png img))) (fs w) (fs w2)"
      by simp
    then show ?thesis
      by (rule extends_by_mono) (auto simp: output_path_suffix)
  qed
  from assms(2) show ?thesis
    unfolding generate_unfold [OF assms(1)]
    by (auto simp: extends_by_refl split: if_splits sum.splits prod.splits dest: loop)
qed

lemma generate_extends:
  assumes "generate_icons_for_category e w folder = (r, w')"
  shows "extends_by icon_entry (fs w) (fs w')"
proof -
  obtain style where "lookup_style (basename folder) = Inr style"
    using lookup_style_total by blast
  then obtain color shape label
    where st: "lookup_style (basename folder) = Inr (color, shape, label)"
    by (cases style) auto
  from generate_extends_style [OF st assms] show ?thesis
    by (rule extends_by_mono) (auto simp: icon_entry_def)
qed

lemma icon_loop_out:
  "icon_loop e cn color shape label folder w names c = (c', w') \<Longrightarrow> \<exists>ms. out w' = out w @ ms"
proof (induction names arbitrary: w c)
  case Nil
  then show ?case by simp
next
  case (Cons n ns)
  let ?p = "output_path_of folder n"
  show ?case
  proof (cases "path_exists (fs w) ?p")
    case True
    with Cons show ?thesis by simp
  next
    case False
    obtain r w1 where d: "draw_icon e w cn color shape label ?p = (r, w1)"
      by (cases "draw_icon e w cn color shape label ?p")
    from draw_icon_result [OF False d] show ?thesis
    proof (elim disjE exE conjE)
      fix err
      assume "r = Inl err" and "w1 = w"
      with Cons.prems False d
      have "icon_loop e cn color shape label folder (print (GenError (clean_name n) err) w) ns c
              = (c', w')"
        by simp
      from Cons.IH [OF this] show ?thesis by auto
    next
      fix img
      assume "r = Inr ?p" and w1: "w1 = w\<lparr>fs := fs w @ [(?p, File (Png img))]\<rparr>"
      with Cons.prems False d
      have "icon_loop e cn color shape label folder w1 ns (c + 1) = (c', w')"
        by simp
      from Cons.IH [OF this] show ?thesis by (simp add: w1)
    qed
  qed
qed

lemma generate_out:
  "\<exists>ms. out (snd (generate_icons_for_category e w folder))
          = out w @ unknown_warning (basename folder) @ ms"
proof -
  obtain style where "lookup_style (basename folder) = Inr style"
    using lookup_style_total by blast
  then obtain color shape label
    where st: "lookup_style (basename folder) = Inr (color, shape, label)"
    by (cases style) auto
  show ?thesis
    unfolding generate_unfold [OF st]
    by (auto split: sum.splits prod.splits dest!: icon_loop_out)
qed

lemma generate_settled:
  assumes "generate_icons_for_category e w folder = (Inr c, w')"
  shows "settled e (fs w') folder"
proof -
  obtain style where "lookup_style (basename folder) = Inr style"
    using lookup_style_total by blast
  then obtain color shape label
    where st: "lookup_style (basename folder) = Inr (color, shape, label)"
    by (cases style) auto
  let ?m = "join folder ''icon-names.txt''"
  have same: "map_of (fs w') ?m = map_of (fs w) ?m"
    using generate_extends [OF assms] by (rule extends_by_manifest)
  show ?thesis
  proof (cases "path_exists (fs w) ?m")
    case False
    then show ?thesis
      using same by (simp add: settled_def path_exists_def)
  next
    case True
    with assms obtain names
      where rd: "read_icon_names (fs w) ?m = Inr names"
        and lp: "icon_loop e (basename folder) color shape label folder
                   (w\<lparr>out := out w @ unknown_warning (basename folder)\<rparr>) names 0 = (c, w')"
      unfolding generate_unfold [OF st] by (auto split: sum.splits prod.splits)
    from rd obtain s where s: "map_of (fs w) ?m = Some (File (Text s))"
      and names: "names = icon_names_of s"
      by (auto simp: read_icon_names_def split: option.splits node.splits content.splits)
    from icon_loop_settled [OF lp] show ?thesis
      using same s names st by (simp add: settled_def list_all_iff)
  qed
qed

lemma generate_noop:
  assumes "settled e (fs w) folder"
  shows "\<exists>ms. generate_icons_for_category e w folder = (Inr 0, w\<lparr>out := out w @ ms\<rparr>)"
proof -
  obtain style where "lookup_style (basename folder) = Inr style"
    using lookup_style_total by blast
  then obtain color shape label
    where st: "lookup_style (basename folder) = Inr (color, shape, label)"
    by (cases style) auto
  let ?m = "join folder ''icon-names.txt''"
  let ?w = "w\<lparr>out := out w @ unknown_warning (basename folder)\<rparr>"
  show ?thesis
  proof (cases "map_of (fs w) ?m")
    case None
    then have "generate_icons_for_category e w folder
                 = (Inr 0, w\<lparr>out := out w
                      @ (unknown_warning (basename folder) @ [NoManifest folder])\<rparr>)"
      unfolding generate_unfold [OF st] by (simp add: path_exists_def)
    then show ?thesis by blast
  next
    case (Some v)
    with assms obtain s where s: "map_of (fs w) ?m = Some (File (Text s))"
      and all: "\<forall>n \<in> set (icon_names_of s). path_exists (fs ?w) (output_path_of folder n)
                 \<or> \<not> drawable e (basename folder) (color, shape, label) (output_path_of folder n)"
      using st
      by (auto simp: settled_def list_all_iff split: node.splits content.splits)
    from icon_loop_noop [OF all] obtain ms
      where "icon_loop e (basename folder) color shape label folder ?w (icon_names_of s) 0
               = (0, ?w\<lparr>out := out ?w @ ms\<rparr>)"
      by blast
    then have "generate_icons_for_category e w folder
                 = (Inr 0, w\<lparr>out := out w @ (unknown_warning (basename folder) @ ms)\<rparr>)"
      unfolding generate_unfold [OF st] using s
      by (simp add: path_exists_def read_icon_names_def)
    then show ?thesis by blast
  qed
qed

lemma settled_mono:
  assumes "settled e f folder" and "extends_by icon_entry f g"
  shows "settled e g folder"
proof -
  have same: "map_of g (join folder ''icon-names.txt'') = map_of f (join folder ''icon-names.txt'')"
    using assms(2) by (rule extends_by_manifest)
  have ex: "path_exists g k" if "path_exists f k" for k
    using assms(2) that by (rule extends_by_exists)
  from assms(1) show ?thesis
    unfolding settled_def same
    by (auto simp: list_all_iff ex split: option.splits node.splits content.splits sum.splits)
qed

section \<open>What a run of the processor creates\<close>

subsection \<open>Names with \<open>.png\<close> at the end only\<close>







subsection \<open>Completeness\<close>




section \<open>The style of the icons\<close>

lemma lookup_style_objectives:
  "lookup_style ''objectives'' = Inr (ColorRGB (255, 235, 59), ''star'', ''OBJ'')"
  by (simp add: lookup_style_def CATEGORY_STYLES_def hex_to_rgb_def int16_def hex_digit_def)

lemma lookup_style_unknown:
  "map_of CATEGORY_STYLES n = None \<Longrightarrow> lookup_style n = Inr (ColorName ''#9e9e9e'', ''circle'', ''???'')"
  by (simp add: lookup_style_def)

lemma generate_new_file:
  assumes "lookup_style (basename folder) = Inr (color, shape, label)"
    and "map_of (fs w) p = None"
    and "map_of (fs (snd (generate_icons_for_category e w folder))) p = Some v"
  shows "\<exists>img l. render_icon e (basename folder) color shape label = Inr img
            \<and> v = File (Png img) \<and> img_ops img = shape_ops color shape @ l"
proof -
  obtain r w' where g: "generate_icons_for_category e w folder = (r, w')"
    by (cases "generate_icons_for_category e w folder")
  from extends_by_new [OF generate_extends_style [OF assms(1) g] assms(2)] assms(3) g
  obtain img where "render_icon e (basename folder) color shape label = Inr img"
    and "v = File (Png img)"
    by auto
  then show ?thesis
    using render_icon_ops by blast
qed

text \<open>
  C8.  Every file the processor creates in a folder named \<open>objectives\<close> is the image
  drawn with the colour (255, 235, 59), which is \<open>#ffeb3b\<close>, the shape \<open>star\<close> and the
  label \<open>OBJ\<close>; its first drawing call is the polygon of the star branch, outlined in
  that colour.  For a folder whose name is not in the style table the processor
  first prints the warning with that name, and every file it creates is drawn with the
  colour \<open>#9e9e9e\<close>, the shape \<open>circle\<close> and the label \<open>???\<close>; its first drawing call
  is the ellipse in the padded box, outlined in that colour.
\<close>

theorem style_fidelity:
  "(basename folder = ''objectives''
      \<and> map_of (fs w) p = None
      \<and> map_of (fs (snd (generate_icons_for_category e w folder))) p = Some v
     \<longrightarrow> (\<exists>img l. render_icon e ''objectives'' (ColorRGB (255, 235, 59)) ''star'' ''OBJ'' = Inr img
            \<and> v = File (Png img)
            \<and> img_ops img = Polygon star_points bg_color (ColorRGB (255, 235, 59)) 2 # l))
   \<and> (map_of CATEGORY_STYLES (basename folder) = None
     \<longrightarrow> (\<exists>ms. out (snd (generate_icons_for_category e w folder))
                 = out w @ UnknownCategory (basename folder) # ms)
       \<and> (map_of (fs w) p = None
          \<and> map_of (fs (snd (generate_icons_for_category e w folder))) p = Some v
         \<longrightarrow> (\<exists>img l. render_icon e (basename folder) (ColorName ''#9e9e9e'') ''circle'' ''???''
                        = Inr img
                \<and> v = File (Png img)
                \<and> img_ops img = Ellipse [4, 4, 60, 60] bg_color (ColorName ''#9e9e9e'') 3 # l)))
   \<and> hex_to_rgb ''#ffeb3b'' = Inr (255, 235, 59)"
proof (intro conjI impI)
  assume a: "basename folder = ''objectives''
      \<and> map_of (fs w) p = None
      \<and> map_of (fs (snd (generate_icons_for_category e w folder))) p = Some v"
  then have st: "lookup_style (basename folder) = Inr (ColorRGB (255, 235, 59), ''star'', ''OBJ'')"
    by (simp add: lookup_style_objectives)
  from a have fresh: "map_of (fs w) p = None"
    and made: "map_of (fs (snd (generate_icons_for_category e w folder))) p = Some v"
    and name: "basename folder = ''objectives''"
    by simp_all
  from generate_new_file [OF st fresh made]
  show "\<exists>img l. render_icon e ''objectives'' (ColorRGB (255, 235, 59)) ''star'' ''OBJ'' = Inr img
            \<and> v = File (Png img)
            \<and> img_ops img = Polygon star_points bg_color (ColorRGB (255, 235, 59)) 2 # l"
    by (simp add: shape_ops_star name)
next
  assume "map_of CATEGORY_STYLES (basename folder) = None"
  then have "unknown_warning (basename folder) = [UnknownCategory (basename folder)]"
    by (simp add: unknown_warning_def)
  then show "\<exists>ms. out (snd (generate_icons_for_category e w folder))
                 = out w @ UnknownCategory (basename folder) # ms"
    using generate_out [of e w folder] by simp
next
  assume u: "map_of CATEGORY_STYLES (basename folder) = None"
    and a: "map_of (fs w) p = None
          \<and> map_of (fs (snd (generate_icons_for_category e w folder))) p = Some v"
  from a have fresh: "map_of (fs w) p = None"
    and made: "map_of (fs (snd (generate_icons_for_category e w folder))) p = Some v"
    by simp_all
  from generate_new_file [OF lookup_style_unknown [OF u] fresh made]
  show "\<exists>img l. render_icon e (basename folder) (ColorName ''#9e9e9e'') ''circle'' ''???''
                        = Inr img
                \<and> v = File (Png img)
                \<and> img_ops img = Ellipse [4, 4, 60, 60] bg_color (ColorName ''#9e9e9e'') 3 # l"
    by (simp add: shape_ops_circle)
next
  show "hex_to_rgb ''#ffeb3b'' = Inr (255, 235, 59)"
    by (simp add: hex_to_rgb_def int16_def hex_digit_def)
qed

theorem style_fidelity_witness:
  "basename ''icons-pathfinding/objectives'' = ''objectives''
   \<and> map_of (fs world_demo) ''icons-pathfinding/objectives/alpha.png'' = None
   \<and> map_of (fs (snd (generate_icons_for_category env_demo world_demo
                         ''icons-pathfinding/objectives'')))
         ''icons-pathfinding/objectives/alpha.png''
       = Some (File (Png icon_demo_objectives))
   \<and> (\<exists>img l. render_icon env_demo ''objectives'' (ColorRGB (255, 235, 59)) ''star'' ''OBJ''
                 = Inr img
          \<and> File (Png icon_demo_objectives) = File (Png img)
          \<and> img_ops img = Polygon star_points bg_color (ColorRGB (255, 235, 59)) 2 # l)
   \<and> map_of CATEGORY_STYLES (basename ''icons-pathfinding/unknown-cat'') = None
   \<and> (\<exists>ms. out (snd (generate_icons_for_category env_demo world_demo
                         ''icons-pathfinding/unknown-cat''))
              = out world_demo @ UnknownCategory (basename ''icons-pathfinding/unknown-cat'') # ms)
   \<and> map_of (fs world_demo) ''icons-pathfinding/unknown-cat/gamma.png'' = None
   \<and> map_of (fs (snd (generate_icons_for_category env_demo world_demo
                         ''icons-pathfinding/unknown-cat'')))
         ''icons-pathfinding/unknown-cat/gamma.png''
       = Some (File (Png icon_demo_fallback))
   \<and> (\<exists>img l. render_icon env_demo (basename ''icons-pathfinding/unknown-cat'')
                 (ColorName ''#9e9e9e'') ''circle'' ''???'' = Inr img
          \<and> File (Png icon_demo_fallback) = File (Png img)
          \<and> img_ops img = Ellipse [4, 4, 60, 60] bg_color (ColorName ''#9e9e9e'') 3 # l)"
proof -
  have a1: "basename ''icons-pathfinding/objectives'' = ''objectives''"
    by code_simp
  have a2: "map_of (fs world_demo) ''icons-pathfinding/objectives/alpha.png'' = None"
    by code_simp
  have a3: "map_of (fs (snd (generate_icons_for_category env_demo world_demo
                         ''icons-pathfinding/objectives'')))
         ''icons-pathfinding/objectives/alpha.png''
       = Some (File (Png icon_demo_objectives))"
    by code_simp
  have b1: "map_of CATEGORY_STYLES (basename ''icons-pathfinding/unknown-cat'') = None"
    by code_simp
  have b2: "map_of (fs world_demo) ''icons-pathfinding/unknown-cat/gamma.png'' = None"
    by code_simp
  have b3: "map_of (fs (snd (generate_icons_for_category env_demo world_demo
                         ''icons-pathfinding/unknown-cat'')))
         ''icons-pathfinding/unknown-cat/gamma.png''
       = Some (File (Png icon_demo_fallback))"
    by code_simp
  show ?thesis
    using a1 a2 a3 b1 b2 b3
      style_fidelity [where folder = "''icons-pathfinding/objectives''" and w = world_demo
        and e = env_demo and p = "''icons-pathfinding/objectives/alpha.png''"
        and v = "File (Png icon_demo_objectives)"]
      style_fidelity [where folder = "''icons-pathfinding/unknown-cat''" and w = world_demo
        and e = env_demo and p = "''icons-pathfinding/unknown-cat/gamma.png''"
        and v = "File (Png icon_demo_fallback)"]
    by blast
qed

section \<open>The walker\<close>

lemma main_loop_extends:
  "main_loop e w items t c = (r, w') \<Longrightarrow> extends_by icon_entry (fs w) (fs w')"
proof (induction items arbitrary: w t c)
  case Nil
  then show ?case by (simp add: extends_by_refl)
next
  case (Cons item items)
  let ?p = "join ICONS_DIR item"
  show ?case
  proof (cases "isdir (fs w) ?p")
    case False
    with Cons show ?thesis by simp
  next
    case True
    obtain r1 w1 where g: "generate_icons_for_category e (print (Processing item) w) ?p = (r1, w1)"
      by (cases "generate_icons_for_category e (print (Processing item) w) ?p")
    from generate_extends [OF g] have first: "extends_by icon_entry (fs w) (fs w1)"
      by simp
    show ?thesis
    proof (cases r1)
      case (Inl err)
      with Cons.prems True g first show ?thesis by simp
    next
      case (Inr n)
      with Cons.prems True g
      have "main_loop e (print (if n > 0 then GeneratedNew n else NothingNew) w1) items
              (t + n) (c + 1) = (r, w')"
        by simp
      from Cons.IH [OF this] have "extends_by icon_entry (fs w1) (fs w')"
        by simp
      with first show ?thesis by (rule extends_by_trans)
    qed
  qed
qed

lemma main_loop_settles:
  "main_loop e w items t c = (Inr r, w') \<Longrightarrow>
   \<forall>item \<in> set items. isdir (fs w) (join ICONS_DIR item)
      \<longrightarrow> settled e (fs w') (join ICONS_DIR item)"
proof (induction items arbitrary: w t c)
  case Nil
  then show ?case by simp
next
  case (Cons item items)
  let ?p = "join ICONS_DIR item"
  show ?case
  proof (cases "isdir (fs w) ?p")
    case False
    with Cons show ?thesis by simp
  next
    case True
    obtain r1 w1 where g: "generate_icons_for_category e (print (Processing item) w) ?p = (r1, w1)"
      by (cases "generate_icons_for_category e (print (Processing item) w) ?p")
    from generate_extends [OF g] have first: "extends_by icon_entry (fs w) (fs w1)"
      by simp
    from Cons.prems True g obtain n where r1: "r1 = Inr n"
      by (cases r1) auto
    let ?w1 = "print (if n > 0 then GeneratedNew n else NothingNew) w1"
    from Cons.prems True g r1
    have rest: "main_loop e ?w1 items (t + n) (c + 1) = (Inr r, w')"
      by simp
    have later: "extends_by icon_entry (fs w1) (fs w')"
      using main_loop_extends [OF rest] by simp
    have "settled e (fs w1) ?p"
      using g r1 generate_settled by blast
    then have head: "settled e (fs w') ?p"
      using later by (rule settled_mono)
    have "settled e (fs w') (join ICONS_DIR i)"
      if "i \<in> set items" and "isdir (fs w) (join ICONS_DIR i)" for i
    proof -
      have "isdir (fs ?w1) (join ICONS_DIR i)"
        using that(2) extends_by_isdir [OF first] by simp
      with Cons.IH [OF rest] that(1) show ?thesis by blast
    qed
    with head show ?thesis by simp
  qed
qed

lemma main_loop_noop:
  "\<forall>item \<in> set items. isdir (fs w) (join ICONS_DIR item)
      \<longrightarrow> settled e (fs w) (join ICONS_DIR item) \<Longrightarrow>
   \<exists>ms k. main_loop e w items t c = (Inr (t, k), w\<lparr>out := out w @ ms\<rparr>)"
proof (induction items arbitrary: w c)
  case Nil
  have "w = w\<lparr>out := out w @ []\<rparr>" by simp
  then show ?case by (metis main_loop.simps(1))
next
  case (Cons item items)
  let ?p = "join ICONS_DIR item"
  show ?case
  proof (cases "isdir (fs w) ?p")
    case False
    then show ?thesis
      using Cons.IH [of w c] Cons.prems by simp
  next
    case True
    let ?w0 = "print (Processing item) w"
    have "settled e (fs ?w0) ?p"
      using Cons.prems True by simp
    from generate_noop [OF this] obtain ms1
      where g: "generate_icons_for_category e ?w0 ?p = (Inr 0, ?w0\<lparr>out := out ?w0 @ ms1\<rparr>)"
      by blast
    let ?w1 = "print NothingNew (?w0\<lparr>out := out ?w0 @ ms1\<rparr>)"
    have "\<forall>i \<in> set items. isdir (fs ?w1) (join ICONS_DIR i)
            \<longrightarrow> settled e (fs ?w1) (join ICONS_DIR i)"
      using Cons.prems by simp
    from Cons.IH [OF this, of "c + 1"] obtain ms2 k
      where "main_loop e ?w1 items t (c + 1) = (Inr (t, k), ?w1\<lparr>out := out ?w1 @ ms2\<rparr>)"
      by blast
    then have "main_loop e w (item # items) t c
                 = (Inr (t, k), w\<lparr>out := out w @ (Processing item # ms1 @ NothingNew # ms2)\<rparr>)"
      using True g by (simp add: print_def)
    then show ?thesis by blast
  qed
qed

subsection \<open>The listing of the root after a run\<close>

lemma child_name_Some:
  assumes "child_name d k = Some x"
  shows "k = d @ ''/'' @ x \<and> x \<noteq> [] \<and> CHR ''/'' \<notin> set x"
proof -
  from assms have t: "take (length d + 1) k = d @ ''/''"
    and x: "x = drop (length d + 1) k" and ne: "x \<noteq> []" and ns: "CHR ''/'' \<notin> set x"
    by (auto simp: child_name_def Let_def split: if_splits)
  have "k = take (length d + 1) k @ drop (length d + 1) k"
    by simp
  with t x have "k = (d @ ''/'') @ x"
    by metis
  with ne ns show ?thesis by simp
qed

lemma join_root_child:
  assumes "x \<noteq> []" and "CHR ''/'' \<notin> set x"
  shows "join ICONS_DIR x = ICONS_DIR @ ''/'' @ x"
proof -
  from assms have "hd x \<noteq> CHR ''/''"
    by (cases x) auto
  then show ?thesis
    by (simp add: join_def ICONS_DIR_def)
qed

lemma map_filter_append: "List.map_filter h (xs @ ys) = List.map_filter h xs @ List.map_filter h ys"
  by (simp add: List.map_filter_def)

lemma set_map_filter: "y \<in> set (List.map_filter h xs) \<Longrightarrow> \<exists>x \<in> set xs. h x = Some y"
  by (auto simp: List.map_filter_def)

lemma listdir_extends:
  assumes "extends_by icon_entry f g" and "listdir f ICONS_DIR = Inr items"
  shows "\<exists>extra. listdir g ICONS_DIR = Inr (items @ extra)
            \<and> (\<forall>x \<in> set extra. \<not> isdir g (join ICONS_DIR x))"
proof -
  from assms(1) obtain new where g: "g = f @ new"
    and new: "\<forall>kv \<in> set new. map_of f (fst kv) = None \<and> icon_entry (fst kv) (snd kv)"
    by (auto simp: extends_by_def)
  let ?h = "\<lambda>en. child_name ICONS_DIR (fst en)"
  from assms(2) have root: "map_of f ICONS_DIR = Some Dir"
    and items: "items = List.map_filter ?h f"
    by (auto simp: listdir_def split: option.splits node.splits)
  have "map_of g ICONS_DIR = Some Dir"
    using assms(1) root by (rule extends_by_old)
  then have ls: "listdir g ICONS_DIR = Inr (items @ List.map_filter ?h new)"
    by (simp add: listdir_def g items map_filter_append)
  have "\<not> isdir g (join ICONS_DIR x)" if "x \<in> set (List.map_filter ?h new)" for x
  proof -
    from set_map_filter [OF that] obtain kv where kv: "kv \<in> set new"
      and c: "child_name ICONS_DIR (fst kv) = Some x"
      by blast
    from child_name_Some [OF c] have k: "fst kv = join ICONS_DIR x"
      by (simp add: join_root_child)
    from kv new have none: "map_of f (fst kv) = None"
      by blast
    have "(fst kv, snd kv) \<in> set g"
      using kv by (simp add: g)
    then obtain v where v: "map_of g (fst kv) = Some v"
      using weak_map_of_SomeI by fastforce
    from extends_by_new [OF assms(1) none v] have "v \<noteq> Dir"
      by (rule icon_entry_not_dir)
    with v k show ?thesis
      by (simp add: isdir_def)
  qed
  with ls show ?thesis by blast
qed

subsection \<open>The entry point\<close>

lemma main_no_root:
  "\<not> path_exists (fs w) ICONS_DIR \<Longrightarrow>
   main e w = (Inr (), w\<lparr>out := out w @ [IconsDirNotFound ICONS_DIR, RunReorganizeFirst]\<rparr>)"
  by (simp add: main_def print_def)

lemma main_with_root:
  "path_exists (fs w) ICONS_DIR \<Longrightarrow>
   main e w =
     (case listdir (fs w) ICONS_DIR of
        Inl err \<Rightarrow> (Inl err, w\<lparr>out := out w @ [Banner, Rule]\<rparr>)
      | Inr items \<Rightarrow>
          (case main_loop e (w\<lparr>out := out w @ [Banner, Rule]\<rparr>) items 0 0 of
             (Inl err, w2) \<Rightarrow> (Inl err, w2)
           | (Inr (t, c), w2) \<Rightarrow>
               (Inr (), w2\<lparr>out := out w2 @ [Rule, Complete t c,
                                 IconsDirectory (abspath e ICONS_DIR), Rule]\<rparr>)))"
  by (simp add: main_def print_def Let_def split: sum.splits prod.splits)

lemma main_extends: "extends_by icon_entry (fs w) (fs (snd (main e w)))"
proof (cases "path_exists (fs w) ICONS_DIR")
  case False
  then show ?thesis
    by (simp add: main_no_root extends_by_refl)
next
  case True
  have loop: "extends_by icon_entry (fs w) (fs w2)"
    if "main_loop e (w\<lparr>out := out w @ [Banner, Rule]\<rparr>) items 0 0 = (r, w2)" for items r w2
    using main_loop_extends [OF that] by simp
  show ?thesis
    unfolding main_with_root [OF True]
    by (auto simp: extends_by_refl split: sum.splits prod.splits dest: loop)
qed

section \<open>Existing files\<close>

text \<open>
  C2.  A name whose destination exists is passed over by the loop without any call of
  the renderer.  Whatever a run of the processor or of the whole tool does, and
  whether it ends normally or with an exception, every path that had a node before
  has the same node afterwards, and the file system afterwards is the old one
  followed by new entries: nothing is overwritten, changed or removed.
\<close>

theorem existing_files_preserved:
  "(path_exists (fs w) (output_path_of category_folder icon_name)
     \<longrightarrow> icon_loop e category_name color shape label category_folder w (icon_name # rest)
           generated_count
         = icon_loop e category_name color shape label category_folder w rest generated_count)
   \<and> (map_of (fs w) p = Some v
     \<longrightarrow> map_of (fs (snd (generate_icons_for_category e w category_folder))) p = Some v
         \<and> map_of (fs (snd (main e w))) p = Some v)
   \<and> prefix (fs w) (fs (snd (generate_icons_for_category e w category_folder)))
   \<and> prefix (fs w) (fs (snd (main e w)))"
proof -
  obtain r w' where g: "generate_icons_for_category e w category_folder = (r, w')"
    by (cases "generate_icons_for_category e w category_folder")
  from generate_extends [OF g]
  have eg: "extends_by icon_entry (fs w) (fs (snd (generate_icons_for_category e w category_folder)))"
    by (simp add: g)
  have em: "extends_by icon_entry (fs w) (fs (snd (main e w)))"
    by (rule main_extends)
  show ?thesis
    using extends_by_old [OF eg] extends_by_old [OF em]
          extends_by_prefix [OF eg] extends_by_prefix [OF em]
    by simp
qed

theorem existing_files_preserved_witness:
  "path_exists (fs world_partial) (output_path_of ''icons-pathfinding/objectives'' ''alpha'')
   \<and> icon_loop env_demo ''objectives'' (ColorRGB (255, 235, 59)) ''star'' ''OBJ''
         ''icons-pathfinding/objectives'' world_partial [''alpha'', ''beta.png''] 0
       = icon_loop env_demo ''objectives'' (ColorRGB (255, 235, 59)) ''star'' ''OBJ''
           ''icons-pathfinding/objectives'' world_partial [''beta.png''] 0
   \<and> map_of (fs world_partial) ''icons-pathfinding/objectives/alpha.png''
       = Some (File (Text ''made by hand''))
   \<and> map_of (fs (snd (generate_icons_for_category env_demo world_partial
                         ''icons-pathfinding/objectives'')))
         ''icons-pathfinding/objectives/alpha.png''
       = Some (File (Text ''made by hand''))
   \<and> map_of (fs (snd (main env_demo world_partial))) ''icons-pathfinding/objectives/alpha.png''
       = Some (File (Text ''made by hand''))
   \<and> fs (snd (main env_demo world_partial))
       = fs world_partial
         @ [(''icons-pathfinding/objectives/beta.png'', File (Png icon_demo_objectives))]"
proof -
  have h1: "path_exists (fs world_partial)
              (output_path_of ''icons-pathfinding/objectives'' ''alpha'')"
    by code_simp
  have h2: "map_of (fs world_partial) ''icons-pathfinding/objectives/alpha.png''
              = Some (File (Text ''made by hand''))"
    by code_simp
  have run: "fs (snd (main env_demo world_partial))
       = fs world_partial
         @ [(''icons-pathfinding/objectives/beta.png'', File (Png icon_demo_objectives))]"
    by code_simp
  show ?thesis
    using h1 h2 run
      existing_files_preserved [where w = world_partial
        and category_folder = "''icons-pathfinding/objectives''" and icon_name = "''alpha''"
        and e = env_demo and category_name = "''objectives''"
        and color = "ColorRGB (255, 235, 59)" and shape = "''star''" and label = "''OBJ''"
        and rest = "[''beta.png'']" and generated_count = 0
        and p = "''icons-pathfinding/objectives/alpha.png''"
        and v = "File (Text ''made by hand'')"]
    by blast
qed

section \<open>A second run\<close>

text \<open>
  C1, as the code has it.  Suppose a run of the tool returns normally.  Then a second
  run from the world the first one left, in the same environment, returns normally as
  well and leaves the file system exactly as it found it; it only prints.  What it
  prints is either the report of the missing root or, between the banner and the
  closing lines, the summary with 0 icons generated.  Every category folder the
  second run visits is settled: each name of its manifest either has its file, and is
  skipped, or cannot be drawn in this environment, and fails again.
\<close>

theorem second_run_generates_nothing:
  assumes "main e w = (Inr (), w1)"
  shows "(\<exists>ms. main e w1 = (Inr (), w1\<lparr>out := out w1 @ ms\<rparr>)
            \<and> (ms = [IconsDirNotFound ICONS_DIR, RunReorganizeFirst]
               \<or> (\<exists>ms' k. ms = Banner # Rule # ms'
                             @ [Rule, Complete 0 k, IconsDirectory (abspath e ICONS_DIR), Rule])))
       \<and> (listdir (fs w1) ICONS_DIR = Inr items \<and> item \<in> set items
            \<and> isdir (fs w1) (join ICONS_DIR item)
          \<longrightarrow> settled e (fs w1) (join ICONS_DIR item))"
proof (cases "path_exists (fs w) ICONS_DIR")
  case False
  with assms have w1: "w1 = w\<lparr>out := out w @ [IconsDirNotFound ICONS_DIR, RunReorganizeFirst]\<rparr>"
    by (simp add: main_no_root)
  then have no: "\<not> path_exists (fs w1) ICONS_DIR"
    using False by simp
  then have "listdir (fs w1) ICONS_DIR \<noteq> Inr items"
    by (simp add: listdir_def path_exists_def)
  then show ?thesis
    using main_no_root [OF no, of e] by blast
next
  case True
  let ?wb = "w\<lparr>out := out w @ [Banner, Rule]\<rparr>"
  from assms obtain items0 t c w2
    where ls: "listdir (fs w) ICONS_DIR = Inr items0"
      and lp: "main_loop e ?wb items0 0 0 = (Inr (t, c), w2)"
      and w1: "w1 = w2\<lparr>out := out w2 @ [Rule, Complete t c,
                                 IconsDirectory (abspath e ICONS_DIR), Rule]\<rparr>"
    unfolding main_with_root [OF True]
    by (auto split: sum.splits prod.splits)
  have ext: "extends_by icon_entry (fs w) (fs w1)"
    using main_loop_extends [OF lp] by (simp add: w1)
  have settle: "\<forall>i \<in> set items0. isdir (fs w) (join ICONS_DIR i)
                  \<longrightarrow> settled e (fs w1) (join ICONS_DIR i)"
    using main_loop_settles [OF lp] by (simp add: w1)
  from listdir_extends [OF ext ls] obtain extra
    where ls1: "listdir (fs w1) ICONS_DIR = Inr (items0 @ extra)"
      and nd: "\<forall>x \<in> set extra. \<not> isdir (fs w1) (join ICONS_DIR x)"
    by blast
  have all: "\<forall>i \<in> set (items0 @ extra). isdir (fs w1) (join ICONS_DIR i)
               \<longrightarrow> settled e (fs w1) (join ICONS_DIR i)"
    using settle nd extends_by_isdir [OF ext] by auto
  have root1: "path_exists (fs w1) ICONS_DIR"
    using ext True by (rule extends_by_exists)
  let ?w1b = "w1\<lparr>out := out w1 @ [Banner, Rule]\<rparr>"
  have "\<forall>i \<in> set (items0 @ extra). isdir (fs ?w1b) (join ICONS_DIR i)
               \<longrightarrow> settled e (fs ?w1b) (join ICONS_DIR i)"
    using all by simp
  from main_loop_noop [OF this, of 0 0] obtain ms' k
    where lp2: "main_loop e ?w1b (items0 @ extra) 0 0 = (Inr (0, k), ?w1b\<lparr>out := out ?w1b @ ms'\<rparr>)"
    by blast
  have second: "main e w1 = (Inr (), w1\<lparr>out := out w1 @ (Banner # Rule # ms'
                   @ [Rule, Complete 0 k, IconsDirectory (abspath e ICONS_DIR), Rule])\<rparr>)"
    unfolding main_with_root [OF root1] ls1 using lp2 by simp
  have "settled e (fs w1) (join ICONS_DIR item)"
    if "listdir (fs w1) ICONS_DIR = Inr items" and "item \<in> set items"
      and "isdir (fs w1) (join ICONS_DIR item)"
    using that ls1 all by auto
  with second show ?thesis by blast
qed

theorem second_run_generates_nothing_witness:
  "main env_demo world_demo = (Inr (), snd (main env_demo world_demo))
   \<and> (\<exists>ms. main env_demo (snd (main env_demo world_demo))
              = (Inr (), (snd (main env_demo world_demo))
                           \<lparr>out := out (snd (main env_demo world_demo)) @ ms\<rparr>)
          \<and> (ms = [IconsDirNotFound ICONS_DIR, RunReorganizeFirst]
             \<or> (\<exists>ms' k. ms = Banner # Rule # ms'
                  @ [Rule, Complete 0 k, IconsDirectory (abspath env_demo ICONS_DIR), Rule])))
   \<and> fs (snd (main env_demo world_demo))
       = fs world_demo
         @ [(''icons-pathfinding/objectives/alpha.png'', File (Png icon_demo_objectives)),
            (''icons-pathfinding/objectives/beta.png'', File (Png icon_demo_objectives)),
            (''icons-pathfinding/unknown-cat/gamma.png'', File (Png icon_demo_fallback))]
   \<and> listdir (fs (snd (main env_demo world_demo))) ICONS_DIR = Inr [''objectives'', ''unknown-cat'']
   \<and> isdir (fs (snd (main env_demo world_demo))) (join ICONS_DIR ''objectives'')
   \<and> settled env_demo (fs (snd (main env_demo world_demo))) (join ICONS_DIR ''objectives'')
   \<and> drop (length (out (snd (main env_demo world_demo))))
          (out (snd (main env_demo (snd (main env_demo world_demo)))))
       = [Banner, Rule, Processing ''objectives'', NothingNew, Processing ''unknown-cat'',
          UnknownCategory ''unknown-cat'', NothingNew, Rule, Complete 0 2,
          IconsDirectory ''/home/u/icons-pathfinding'', Rule]"
proof -
  let ?w1 = "snd (main env_demo world_demo)"
  have "fst (main env_demo world_demo) = Inr ()"
    by code_simp
  then have h: "main env_demo world_demo = (Inr (), ?w1)"
    by (metis prod.collapse)
  have files: "fs ?w1
       = fs world_demo
         @ [(''icons-pathfinding/objectives/alpha.png'', File (Png icon_demo_objectives)),
            (''icons-pathfinding/objectives/beta.png'', File (Png icon_demo_objectives)),
            (''icons-pathfinding/unknown-cat/gamma.png'', File (Png icon_demo_fallback))]"
    by code_simp
  have ls: "listdir (fs ?w1) ICONS_DIR = Inr [''objectives'', ''unknown-cat'']"
    by code_simp
  have d: "isdir (fs ?w1) (join ICONS_DIR ''objectives'')"
    by code_simp
  have printed: "drop (length (out ?w1)) (out (snd (main env_demo ?w1)))
       = [Banner, Rule, Processing ''objectives'', NothingNew, Processing ''unknown-cat'',
          UnknownCategory ''unknown-cat'', NothingNew, Rule, Complete 0 2,
          IconsDirectory ''/home/u/icons-pathfinding'', Rule]"
    by code_simp
  have m: "''objectives'' \<in> set [''objectives'', ''unknown-cat'']"
    by simp
  show ?thesis
    using h files ls d printed m
      second_run_generates_nothing [OF h, where items = "[''objectives'', ''unknown-cat'']"
        and item = "''objectives''"]
    by blast
qed

text \<open>
  The specification explains the second run by every destination path existing and
  being skipped.  On a read-only file system the first run returns normally with all
  three saves refused and caught; the destination of \<open>alpha\<close> does not exist
  afterwards, and the second run does not skip it: it tries again, fails again and
  reports 0 icons.
\<close>

theorem second_run_retries_counterexample:
  "fst (main env_readonly world_demo) = Inr ()
   \<and> icon_names_of ''alpha\<newline>beta.png\<newline>'' = [''alpha'', ''beta.png'']
   \<and> fs (snd (main env_readonly world_demo)) = fs world_demo
   \<and> \<not> path_exists (fs (snd (main env_readonly world_demo)))
         (output_path_of ''icons-pathfinding/objectives'' ''alpha'')
   \<and> drop (length (out (snd (main env_readonly world_demo))))
          (out (snd (main env_readonly (snd (main env_readonly world_demo)))))
       = [Banner, Rule, Processing ''objectives'',
          GenError ''alpha'' (OSError ''icons-pathfinding/objectives/alpha.png''),
          GenError ''beta'' (OSError ''icons-pathfinding/objectives/beta.png''),
          NothingNew, Processing ''unknown-cat'', UnknownCategory ''unknown-cat'',
          GenError ''gamma'' (OSError ''icons-pathfinding/unknown-cat/gamma.png''),
          NothingNew, Rule, Complete 0 2, IconsDirectory ''/home/u/icons-pathfinding'', Rule]"
  by code_simp

end
